theory Spec2Isabelle
  imports Main "HOL-Library.Sublist"
begin

section \<open>Python strings\<close>

text \<open>
  A Python \<open>str\<close> is a sequence of Unicode code points, so a string is modelled as the
  list of its code points and its length counts code points. A literal of the source
  is written \<open>py ''...''\<close>.
\<close>

type_synonym pystr = "nat list"

definition py :: "string \<Rightarrow> pystr" where
  "py s = map of_char s"

text \<open>
  \<open>str.splitlines()\<close> ends a line at each of the line boundaries of the language
  reference: LF, VT, FF, CR, FS, GS, RS, NEL, LINE SEPARATOR and PARAGRAPH SEPARATOR;
  CR immediately followed by LF is one boundary.
\<close>

definition is_linebreak :: "nat \<Rightarrow> bool" where
  "is_linebreak c \<longleftrightarrow> c \<in> {10, 11, 12, 13, 28, 29, 30, 133, 8232, 8233}"

text \<open>
  \<open>str.strip()\<close> without argument removes the characters for which \<open>str.isspace\<close>
  holds: the line boundaries above, TAB, US, SPACE, NO-BREAK SPACE and the other
  Unicode space separators.
\<close>

definition is_space :: "nat \<Rightarrow> bool" where
  "is_space c \<longleftrightarrow>
     c \<in> {9, 10, 11, 12, 13, 28, 29, 30, 31, 32, 133, 160, 5760, 8232, 8233, 8239, 8287, 12288}
     \<or> (8192 \<le> c \<and> c \<le> 8202)"

text \<open>
  The scanning loop of \<open>splitlines\<close>: \<open>cur\<close> is the text of the line being read. A
  line is emitted at every boundary; at the end of the text a last line is emitted
  only when it is not empty, so a final boundary opens no further line.
\<close>

fun splitlines_from :: "pystr \<Rightarrow> pystr \<Rightarrow> pystr list" where
  "splitlines_from cur [] = (if cur = [] then [] else [cur])"
| "splitlines_from cur [c] =
     (if is_linebreak c then [cur] else [cur @ [c]])"
| "splitlines_from cur (c # d # cs) =
     (if c = 13 \<and> d = 10 then cur # splitlines_from [] cs
      else if is_linebreak c then cur # splitlines_from [] (d # cs)
      else splitlines_from (cur @ [c]) (d # cs))"

definition splitlines :: "pystr \<Rightarrow> pystr list" where
  "splitlines s = splitlines_from [] s"

definition strip :: "pystr \<Rightarrow> pystr" where
  "strip s = rev (dropWhile is_space (rev (dropWhile is_space s)))"

definition startswith :: "pystr \<Rightarrow> pystr \<Rightarrow> bool" where
  "startswith s p \<longleftrightarrow> take (length p) s = p"

text \<open>\<open>sep.join(xs)\<close>.\<close>

fun join :: "pystr \<Rightarrow> pystr list \<Rightarrow> pystr" where
  "join sep [] = []"
| "join sep [x] = x"
| "join sep (x # y # ys) = x @ sep @ join sep (y # ys)"

section \<open>The diff normalizer\<close>

definition normalize_diff :: "pystr \<Rightarrow> pystr" where
  "normalize_diff diff_text =
     (let lines = [strip line. line \<leftarrow> splitlines diff_text,
                    \<not> startswith line (py ''index'') \<and> \<not> startswith line (py ''---'')
                    \<and> \<not> startswith line (py ''+++'')]
      in join (py [CHR 0x0A]) lines)"

section \<open>The diff invoker\<close>

text \<open>
  \<open>run_git_diff\<close> builds the command line and returns the decoded standard output of
  the external tool. The tool is the parameter \<open>git\<close>, from the argument vector to the
  text it prints.
\<close>

definition run_git_diff ::
  "(pystr list \<Rightarrow> pystr) \<Rightarrow> pystr \<Rightarrow> pystr \<Rightarrow> pystr \<Rightarrow> pystr \<Rightarrow> pystr \<Rightarrow> pystr" where
  "run_git_diff git repo_path parent commit_hash file_path algo =
     git [py ''git'', py ''-C'', repo_path, py ''diff'', parent, commit_hash, py ''--'', file_path,
          py ''--ignore-blank-lines'', py ''--ignore-space-change'',
          py ''--diff-algorithm='' @ algo]"

section \<open>The dataset pipeline\<close>

text \<open>
  What the commit-mining library yields: a modified file with its optional old and new
  path (\<open>None\<close> for an added or a deleted file), and a commit with its hash, its parent
  hashes, its message and its modified files.
\<close>

record modified_file =
  old_path :: "pystr option"
  new_path :: "pystr option"

record commit =
  hash :: pystr
  parents :: "pystr list"
  msg :: pystr
  modified_files :: "modified_file list"

text \<open>A data row of the CSV file, one field per column of the header.\<close>

record dataset_row =
  repo :: pystr
  old_file_path :: pystr
  new_file_path :: pystr
  commit_SHA :: pystr
  parent_commit_SHA :: pystr
  commit_message :: pystr
  diff_myers :: pystr
  diff_hist :: pystr
  Discrepancy :: pystr

definition BASE_DIR :: pystr where
  "BASE_DIR = py ''repos''"

text \<open>\<open>os.path.join\<close> of two components, as \<open>posixpath\<close> defines it.\<close>

definition os_path_join :: "pystr \<Rightarrow> pystr \<Rightarrow> pystr" where
  "os_path_join a b =
     (if startswith b (py ''/'') then b
      else if a = [] \<or> last a = 47 then a @ b
      else a @ py ''/'' @ b)"

text \<open>The configured repositories: name, origin and commit cap, in declaration order.\<close>

definition repos :: "(pystr \<times> pystr \<times> int) list" where
  "repos =
     [(py ''MaxKB'', py ''https://github.com/1Panel-dev/MaxKB.git'', 100),
      (py ''police-brutality'', py ''https://github.com/2020pb/police-brutality.git'', 100),
      (py ''manim'', py ''https://github.com/3b1b/manim.git'', 300)]"

text \<open>
  The verdict of lines 95 and 96: content differs or line counts differ.
\<close>

definition discrepancy :: "pystr \<Rightarrow> pystr \<Rightarrow> pystr" where
  "discrepancy norm_myers norm_hist =
     (if norm_myers \<noteq> norm_hist
         \<or> length (splitlines norm_myers) \<noteq> length (splitlines norm_hist)
      then py ''Yes'' else py ''No'')"

text \<open>
  The loop over the modified files of one commit. \<open>written\<close> is the list of data rows
  the CSV writer has received so far; a \<open>continue\<close> leaves it as it is.
\<close>

fun modified_files_loop ::
  "(pystr list \<Rightarrow> pystr) \<Rightarrow> pystr \<Rightarrow> pystr \<Rightarrow> commit \<Rightarrow> modified_file list
     \<Rightarrow> dataset_row list \<Rightarrow> dataset_row list" where
  "modified_files_loop git name repo_path c [] written = written"
| "modified_files_loop git name repo_path c (modf # rest) written =
     (if old_path modf = None \<or> new_path modf = None then
        modified_files_loop git name repo_path c rest written
      else if parents c = [] then
        modified_files_loop git name repo_path c rest written
      else
        let parent = hd (parents c);
            d_myers = run_git_diff git repo_path parent (hash c) (the (new_path modf)) (py ''myers'');
            d_hist = run_git_diff git repo_path parent (hash c) (the (new_path modf)) (py ''histogram'');
            norm_myers = normalize_diff d_myers;
            norm_hist = normalize_diff d_hist;
            verdict = discrepancy norm_myers norm_hist
        in modified_files_loop git name repo_path c rest
             (written @
              [\<lparr>repo = name, old_file_path = the (old_path modf),
                new_file_path = the (new_path modf), commit_SHA = hash c,
                parent_commit_SHA = parent, commit_message = strip (msg c),
                diff_myers = d_myers, diff_hist = d_hist, Discrepancy = verdict\<rparr>]))"

text \<open>
  The loop over the commits of one repository with its counter: the \<open>break\<close> returns
  as soon as the counter has reached the cap. The result is the final counter and the
  rows written.
\<close>

fun traverse_loop ::
  "(pystr list \<Rightarrow> pystr) \<Rightarrow> pystr \<Rightarrow> pystr \<Rightarrow> int \<Rightarrow> int \<Rightarrow> commit list
     \<Rightarrow> dataset_row list \<Rightarrow> int \<times> dataset_row list" where
  "traverse_loop git name repo_path max_commits commit_count [] written =
     (commit_count, written)"
| "traverse_loop git name repo_path max_commits commit_count (c # rest) written =
     (if commit_count \<ge> max_commits then (commit_count, written)
      else traverse_loop git name repo_path max_commits (commit_count + 1) rest
             (modified_files_loop git name repo_path c (modified_files c) written))"

text \<open>
  The loop over the repositories. \<open>traverse_commits\<close> stands for the commit-mining
  library: the finite sequence of commits it yields for a repository path.
\<close>

fun repos_loop ::
  "(pystr list \<Rightarrow> pystr) \<Rightarrow> (pystr \<Rightarrow> commit list) \<Rightarrow> (pystr \<times> pystr \<times> int) list
     \<Rightarrow> dataset_row list \<Rightarrow> dataset_row list" where
  "repos_loop git traverse_commits [] written = written"
| "repos_loop git traverse_commits ((name, url, max_commits) # rest) written =
     (let repo_path = os_path_join BASE_DIR name
      in repos_loop git traverse_commits rest
           (snd (traverse_loop git name repo_path max_commits 0
                   (traverse_commits repo_path) written)))"

definition generate_dataset ::
  "(pystr list \<Rightarrow> pystr) \<Rightarrow> (pystr \<Rightarrow> commit list) \<Rightarrow> (pystr \<times> pystr \<times> int) list
     \<Rightarrow> dataset_row list" where
  "generate_dataset git traverse_commits rs = repos_loop git traverse_commits rs []"

section \<open>The aggregator and reporter\<close>

text \<open>
  The data frame that \<open>pd.read_csv\<close> returns for the CSV file. The reporter uses two
  of its columns. The \<open>Discrepancy\<close> column holds the verdict texts. The type of the
  \<open>new_file_path\<close> column is the one pandas infers from the content of the file:
  \<^item> a text column, each cell a string or the missing value (\<open>None\<close> here), which
    is what a path such as \<open>NA\<close> is read as; a file with no data row gives an empty
    text column;
  \<^item> a column of another type, when every path of the file reads as a number, a
    truth value or a missing value.
  The file is taken to be typed as a whole, so a text column holds no other values.
\<close>

record frame_row =
  Discrepancy_cell :: pystr
  new_file_path_cell :: "pystr option"

datatype data_frame =
  Text_paths "frame_row list"
  | Other_paths "pystr list"

text \<open>
  \<open>Text_paths rows\<close> is a frame with a text path column, given by its rows;
  \<open>Other_paths verdicts\<close> is a frame whose path column is not text, given by its
  \<open>Discrepancy\<close> column. Selecting rows keeps the type of the columns.
\<close>

fun mismatches :: "data_frame \<Rightarrow> data_frame" where
  "mismatches (Text_paths rows) =
     Text_paths (filter (\<lambda>r. Discrepancy_cell r = py ''Yes'') rows)"
| "mismatches (Other_paths verdicts) =
     Other_paths (filter (\<lambda>v. v = py ''Yes'') verdicts)"

text \<open>The exception of the \<open>.str\<close> accessor on a column that is not text.\<close>

datatype py_error = AttributeError

definition endswith :: "pystr \<Rightarrow> pystr \<Rightarrow> bool" where
  "endswith s suf \<longleftrightarrow>
     length suf \<le> length s \<and> drop (length s - length suf) s = suf"

text \<open>\<open>Series.str.endswith\<close> with a tuple of suffixes: one of them matches.\<close>

definition endswith_any :: "pystr \<Rightarrow> pystr list \<Rightarrow> bool" where
  "endswith_any s sufs \<longleftrightarrow> list_ex (endswith s) sufs"

text \<open>
  \<open>Series.str.contains(pat, case=False)\<close> searches the regular expression \<open>pat\<close> with
  the flag IGNORECASE. The three patterns of the source are plain ASCII words, so the
  search is for a substring whose characters match those of the pattern when case is
  ignored. A text character matches an ASCII pattern character when both have the same
  lowercase form; beyond ASCII that adds LATIN SMALL LETTER LONG S for \<open>s\<close>, the dotted
  capital and the dotless small I for \<open>i\<close>, and KELVIN SIGN for \<open>k\<close>.
\<close>

definition ascii_lower :: "nat \<Rightarrow> nat" where
  "ascii_lower c = (if 65 \<le> c \<and> c \<le> 90 then c + 32 else c)"

definition ignorecase_eq :: "nat \<Rightarrow> nat \<Rightarrow> bool" where
  "ignorecase_eq p c \<longleftrightarrow>
     (let lo = ascii_lower p
      in ascii_lower c = lo \<or> (lo = 115 \<and> c = 383) \<or> (lo = 105 \<and> (c = 304 \<or> c = 305))
         \<or> (lo = 107 \<and> c = 8490))"

fun match_ci_at :: "pystr \<Rightarrow> pystr \<Rightarrow> bool" where
  "match_ci_at [] s = True"
| "match_ci_at (p # ps) [] = False"
| "match_ci_at (p # ps) (c # cs) = (ignorecase_eq p c \<and> match_ci_at ps cs)"

fun contains_ci :: "pystr \<Rightarrow> pystr \<Rightarrow> bool" where
  "contains_ci [] pat = match_ci_at pat []"
| "contains_ci (c # cs) pat = (match_ci_at pat (c # cs) \<or> contains_ci cs pat)"

text \<open>
  The four category predicates on the path cell of a row of a text column. With
  \<open>na=False\<close> a missing value matches none of them.
\<close>

definition is_source_code :: "frame_row \<Rightarrow> bool" where
  "is_source_code r \<longleftrightarrow>
     (case new_file_path_cell r of
        None \<Rightarrow> False
      | Some p \<Rightarrow>
          endswith_any p
            [py ''.py'', py ''.cpp'', py ''.java'', py ''.js'', py ''.ts'', py ''.c''])"

definition is_test_code :: "frame_row \<Rightarrow> bool" where
  "is_test_code r \<longleftrightarrow>
     (case new_file_path_cell r of None \<Rightarrow> False | Some p \<Rightarrow> contains_ci p (py ''test''))"

definition is_readme :: "frame_row \<Rightarrow> bool" where
  "is_readme r \<longleftrightarrow>
     (case new_file_path_cell r of None \<Rightarrow> False | Some p \<Rightarrow> contains_ci p (py ''README''))"

definition is_license :: "frame_row \<Rightarrow> bool" where
  "is_license r \<longleftrightarrow>
     (case new_file_path_cell r of None \<Rightarrow> False | Some p \<Rightarrow> contains_ci p (py ''LICENSE''))"

text \<open>
  The dictionary of lines 113 to 120. The first entry already takes
  \<open>mismatches["new_file_path"].str\<close>, which raises \<open>AttributeError\<close> when the column is
  not text, whether or not a row is selected; then no entry is built.
\<close>

definition categories :: "data_frame \<Rightarrow> py_error + (pystr \<times> frame_row list) list" where
  "categories df =
     (case mismatches df of
        Other_paths verdicts \<Rightarrow> Inl AttributeError
      | Text_paths rows \<Rightarrow>
          Inr [(py ''Source Code'', filter is_source_code rows),
               (py ''Test Code'', filter is_test_code rows),
               (py ''README'', filter is_readme rows),
               (py ''LICENSE'', filter is_license rows)])"

definition counts :: "data_frame \<Rightarrow> py_error + (pystr \<times> int) list" where
  "counts df =
     (case categories df of
        Inl e \<Rightarrow> Inl e
      | Inr cats \<Rightarrow> Inr (map (\<lambda>(cat, data). (cat, int (length data))) cats))"

text \<open>The decimal text of an integer, as an f-string formats it.\<close>

fun str_nat :: "nat \<Rightarrow> pystr" where
  "str_nat n = (if n < 10 then [48 + n] else str_nat (n div 10) @ [48 + n mod 10])"

declare str_nat.simps [simp del]

definition str_int :: "int \<Rightarrow> pystr" where
  "str_int i = (if i < 0 then 45 # str_nat (nat (- i)) else str_nat (nat i))"

text \<open>
  What the reporter does, in order: the lines it prints and the calls it makes to the
  plotting library.
\<close>

datatype event =
  Print pystr
  | Plt_bar "pystr list" "int list"
  | Plt_xlabel pystr
  | Plt_ylabel pystr
  | Plt_title pystr
  | Plt_tight_layout
  | Plt_savefig pystr
  | Plt_show

text \<open>\<open>any\<close> over integers: some element is not zero.\<close>

definition any_count :: "int list \<Rightarrow> bool" where
  "any_count xs \<longleftrightarrow> list_ex (\<lambda>x. x \<noteq> 0) xs"

text \<open>
  Lines 122 to 138. An exception raised while the categories are built ends the script
  before anything of this part is printed.
\<close>

definition report :: "data_frame \<Rightarrow> py_error + event list" where
  "report df =
     (case counts df of
        Inl e \<Rightarrow> Inl e
      | Inr cs \<Rightarrow>
          Inr ([Print ([10] @ py ''Mismatch counts:'')]
               @ map (\<lambda>(cat, count). Print (cat @ py '': '' @ str_int count)) cs
               @ (if any_count (map snd cs) then
                    [Plt_bar (map fst cs) (map snd cs),
                     Plt_xlabel (py ''File Type''),
                     Plt_ylabel (py ''Number of Mismatches''),
                     Plt_title (py ''Mismatch Statistics by File Type''),
                     Plt_tight_layout,
                     Plt_savefig (py ''mismatch_statistics.png''),
                     Plt_show,
                     Print ([10] @ py '' Plot saved as mismatch_statistics.png'')]
                  else
                    [Print ([10] @ py '' No mismatches found '' @ [226, 8364, 8221]
                            @ py '' plot skipped.'')])))"

section \<open>Notions used to state the properties\<close>

subsection \<open>Lines of a normalized diff\<close>

text \<open>The filter of \<open>normalize_diff\<close>: a line is dropped when it starts with a marker.\<close>

definition is_header :: "pystr \<Rightarrow> bool" where
  "is_header line \<longleftrightarrow>
     startswith line (py ''index'') \<or> startswith line (py ''---'')
     \<or> startswith line (py ''+++'')"

text \<open>The list that \<open>normalize_diff\<close> joins.\<close>

definition kept_lines :: "pystr \<Rightarrow> pystr list" where
  "kept_lines T = map strip (filter (\<lambda>line. \<not> is_header line) (splitlines T))"

text \<open>A list of lines without its last element when that element is the empty line.\<close>

definition drop_final_empty :: "pystr list \<Rightarrow> pystr list" where
  "drop_final_empty ls = (if ls \<noteq> [] \<and> last ls = [] then butlast ls else ls)"

text \<open>A text with no whitespace at either end.\<close>

definition stripped :: "pystr \<Rightarrow> bool" where
  "stripped l \<longleftrightarrow> l = [] \<or> (\<not> is_space (hd l) \<and> \<not> is_space (last l))"

definition no_linebreak :: "pystr \<Rightarrow> bool" where
  "no_linebreak l \<longleftrightarrow> list_all (\<lambda>c. \<not> is_linebreak c) l"

subsection \<open>Rows the dataset is expected to hold\<close>

text \<open>
  A modified file of a commit qualifies for a row when the commit has a parent and both
  paths are present.
\<close>

definition qualifies :: "commit \<Rightarrow> modified_file \<Rightarrow> bool" where
  "qualifies c modf \<longleftrightarrow>
     parents c \<noteq> [] \<and> old_path modf \<noteq> None \<and> new_path modf \<noteq> None"

text \<open>The row of a qualifying modified file: both diffs against the first parent.\<close>

definition row_for ::
  "(pystr list \<Rightarrow> pystr) \<Rightarrow> pystr \<Rightarrow> pystr \<Rightarrow> commit \<Rightarrow> modified_file \<Rightarrow> dataset_row" where
  "row_for git name repo_path c modf =
     (let d_myers = run_git_diff git repo_path (hd (parents c)) (hash c)
                      (the (new_path modf)) (py ''myers'');
          d_hist = run_git_diff git repo_path (hd (parents c)) (hash c)
                     (the (new_path modf)) (py ''histogram'')
      in \<lparr>repo = name, old_file_path = the (old_path modf),
          new_file_path = the (new_path modf), commit_SHA = hash c,
          parent_commit_SHA = hd (parents c), commit_message = strip (msg c),
          diff_myers = d_myers, diff_hist = d_hist,
          Discrepancy = discrepancy (normalize_diff d_myers) (normalize_diff d_hist)\<rparr>)"

definition commit_rows ::
  "(pystr list \<Rightarrow> pystr) \<Rightarrow> pystr \<Rightarrow> pystr \<Rightarrow> commit \<Rightarrow> dataset_row list" where
  "commit_rows git name repo_path c =
     map (row_for git name repo_path c) (filter (qualifies c) (modified_files c))"

text \<open>The rows of one repository: those of the first \<open>max_commits\<close> commits it yields.\<close>

definition repo_rows ::
  "(pystr list \<Rightarrow> pystr) \<Rightarrow> (pystr \<Rightarrow> commit list) \<Rightarrow> pystr \<times> pystr \<times> int
     \<Rightarrow> dataset_row list" where
  "repo_rows git traverse_commits r =
     (case r of (name, url, max_commits) \<Rightarrow>
        concat (map (commit_rows git name (os_path_join BASE_DIR name))
                  (take (nat max_commits) (traverse_commits (os_path_join BASE_DIR name)))))"

subsection \<open>A small repository\<close>

text \<open>
  One repository with a cap of two commits and three commits in its history: a root
  commit, a commit that changes \<open>a.py\<close> and \<open>test_b.py\<close> and adds \<open>new.txt\<close>, and a
  third commit beyond the cap. The two algorithms agree on \<open>a.py\<close>; on \<open>test_b.py\<close>
  the histogram diff has one more line.
\<close>

definition example_git :: "pystr list \<Rightarrow> pystr" where
  "example_git cmd =
     (if py ''test_b.py'' \<in> set cmd \<and> py ''--diff-algorithm=histogram'' \<in> set cmd
      then py ''-x'' @ [10] @ py ''+y'' @ [10] @ py ''+z''
      else py ''-x'' @ [10] @ py ''+y'')"

definition example_root_commit :: commit where
  "example_root_commit =
     \<lparr>hash = py ''c0'', parents = [], msg = py ''init'',
      modified_files = [\<lparr>old_path = Some (py ''a.py''), new_path = Some (py ''a.py'')\<rparr>]\<rparr>"

definition example_commit :: commit where
  "example_commit =
     \<lparr>hash = py ''c1'', parents = [py ''c0''], msg = py '' edit '',
      modified_files =
        [\<lparr>old_path = Some (py ''a.py''), new_path = Some (py ''a.py'')\<rparr>,
         \<lparr>old_path = None, new_path = Some (py ''new.txt'')\<rparr>,
         \<lparr>old_path = Some (py ''test_b.py''), new_path = Some (py ''test_b.py'')\<rparr>]\<rparr>"

definition example_late_commit :: commit where
  "example_late_commit =
     \<lparr>hash = py ''c2'', parents = [py ''c1''], msg = py ''late'',
      modified_files = [\<lparr>old_path = Some (py ''a.py''), new_path = Some (py ''a.py'')\<rparr>]\<rparr>"

definition example_commits :: "commit list" where
  "example_commits = [example_root_commit, example_commit, example_late_commit]"

definition example_repos :: "(pystr \<times> pystr \<times> int) list" where
  "example_repos = [(py ''demo'', py ''https://example.org/demo.git'', 2)]"

definition example_row_a :: dataset_row where
  "example_row_a =
     \<lparr>repo = py ''demo'', old_file_path = py ''a.py'', new_file_path = py ''a.py'',
      commit_SHA = py ''c1'', parent_commit_SHA = py ''c0'', commit_message = py ''edit'',
      diff_myers = py ''-x'' @ [10] @ py ''+y'', diff_hist = py ''-x'' @ [10] @ py ''+y'',
      Discrepancy = py ''No''\<rparr>"

definition example_row_b :: dataset_row where
  "example_row_b =
     \<lparr>repo = py ''demo'', old_file_path = py ''test_b.py'', new_file_path = py ''test_b.py'',
      commit_SHA = py ''c1'', parent_commit_SHA = py ''c0'', commit_message = py ''edit'',
      diff_myers = py ''-x'' @ [10] @ py ''+y'',
      diff_hist = py ''-x'' @ [10] @ py ''+y'' @ [10] @ py ''+z'',
      Discrepancy = py ''Yes''\<rparr>"

subsection \<open>Small data frames\<close>

text \<open>
  The rows of a text frame: the two rows of the small repository as they are read
  back, and a discrepant row whose path is that of a test written in Python.
\<close>

definition example_frame_row_a :: frame_row where
  "example_frame_row_a =
     \<lparr>Discrepancy_cell = py ''No'', new_file_path_cell = Some (py ''a.py'')\<rparr>"

definition example_frame_row_b :: frame_row where
  "example_frame_row_b =
     \<lparr>Discrepancy_cell = py ''Yes'', new_file_path_cell = Some (py ''test_b.py'')\<rparr>"

definition example_frame_row_test_utils :: frame_row where
  "example_frame_row_test_utils =
     \<lparr>Discrepancy_cell = py ''Yes'', new_file_path_cell = Some (py ''test_utils.py'')\<rparr>"

subsection \<open>What the reporter does\<close>

text \<open>A call to the plotting library, as opposed to a printed line.\<close>

definition is_plot_call :: "event \<Rightarrow> bool" where
  "is_plot_call e = (case e of Print s \<Rightarrow> False | _ \<Rightarrow> True)"

text \<open>The line printed when the chart is skipped.\<close>

definition skipped_message :: pystr where
  "skipped_message =
     [10] @ py '' No mismatches found '' @ [226, 8364, 8221] @ py '' plot skipped.''"

subsection \<open>Two diffs that differ in a deleted line\<close>

text \<open>
  Two hunks that delete a different line each, \<open>-- first\<close> and \<open>-- second\<close>: the
  unified diff renders the deletions as lines starting with three dashes.
\<close>

definition example_diff_a :: pystr where
  "example_diff_a = py ''@@ -1,2 +1 @@'' @ [10] @ py ''--- first'' @ [10] @ py '' x''"

definition example_diff_b :: pystr where
  "example_diff_b = py ''@@ -1,2 +1 @@'' @ [10] @ py ''--- second'' @ [10] @ py '' x''"

section \<open>Properties of the pipeline\<close>

lemma modified_files_loop_rows:
  "modified_files_loop git name repo_path c mods written =
     written @ map (row_for git name repo_path c) (filter (qualifies c) mods)"
  by (induction mods arbitrary: written) (simp_all add: qualifies_def row_for_def Let_def)

lemma traverse_loop_rows:
  "traverse_loop git name repo_path max_commits k cs written =
     (k + int (min (length cs) (nat (max_commits - k))),
      written @ concat (map (commit_rows git name repo_path) (take (nat (max_commits - k)) cs)))"
proof (induction cs arbitrary: k written)
  case Nil
  then show ?case by simp
next
  case (Cons c cs)
  show ?case
  proof (cases "k \<ge> max_commits")
    case True
    then show ?thesis by simp
  next
    case False
    then have n: "nat (max_commits - k) = Suc (nat (max_commits - (k + 1)))" by simp
    show ?thesis using False
      by (simp add: Cons.IH modified_files_loop_rows commit_rows_def n)
  qed
qed

lemma repos_loop_rows:
  "repos_loop git traverse_commits rs written =
     written @ concat (map (repo_rows git traverse_commits) rs)"
proof (induction rs arbitrary: written)
  case Nil
  then show ?case by simp
next
  case (Cons r rs)
  obtain name :: pystr and url :: pystr and max_commits :: int
    where r: "r = (name, url, max_commits)" by (cases r)
  show ?case
    by (simp add: r Cons.IH traverse_loop_rows repo_rows_def Let_def)
qed

lemma generate_dataset_rows:
  "generate_dataset git traverse_commits rs = concat (map (repo_rows git traverse_commits) rs)"
  by (simp add: generate_dataset_def repos_loop_rows)

lemma dataset_row_verdict:
  assumes "r \<in> set (generate_dataset git traverse_commits rs)"
  shows "Discrepancy r =
           discrepancy (normalize_diff (diff_myers r)) (normalize_diff (diff_hist r))"
proof -
  from assms obtain name c modf
    where "r = row_for git name (os_path_join BASE_DIR name) c modf"
    by (auto simp: generate_dataset_rows repo_rows_def commit_rows_def)
  then show ?thesis by (simp add: row_for_def Let_def)
qed

lemma yes_neq_no: "py ''Yes'' \<noteq> py ''No''"
  by (simp add: py_def)

lemma example_dataset_generated:
  "generate_dataset example_git (\<lambda>p. example_commits) example_repos
     = [example_row_a, example_row_b]"
  by (simp add: generate_dataset_def example_repos_def example_commits_def
      example_root_commit_def example_commit_def example_late_commit_def example_row_a_def
      example_row_b_def example_git_def run_git_diff_def normalize_diff_def discrepancy_def
      splitlines_def strip_def startswith_def is_space_def is_linebreak_def os_path_join_def
      BASE_DIR_def py_def Let_def)

text \<open>
  C2: every row of the dataset carries the verdict \<open>Yes\<close> exactly when the normalized
  Myers text and the normalized Histogram text of that row are unequal or split into
  different numbers of lines, and the verdict \<open>No\<close> exactly when neither is the case.
\<close>

theorem verdict_yes_iff_text_or_line_count_differs:
  "\<forall>r \<in> set (generate_dataset git traverse_commits rs).
     (Discrepancy r = py ''Yes'' \<longleftrightarrow>
        normalize_diff (diff_myers r) \<noteq> normalize_diff (diff_hist r)
        \<or> length (splitlines (normalize_diff (diff_myers r)))
            \<noteq> length (splitlines (normalize_diff (diff_hist r))))
     \<and> (Discrepancy r = py ''No'' \<longleftrightarrow>
        \<not> (normalize_diff (diff_myers r) \<noteq> normalize_diff (diff_hist r)
           \<or> length (splitlines (normalize_diff (diff_myers r)))
               \<noteq> length (splitlines (normalize_diff (diff_hist r)))))"
proof
  fix r
  assume "r \<in> set (generate_dataset git traverse_commits rs)"
  then have "Discrepancy r =
      discrepancy (normalize_diff (diff_myers r)) (normalize_diff (diff_hist r))"
    by (rule dataset_row_verdict)
  then show "(Discrepancy r = py ''Yes'' \<longleftrightarrow>
        normalize_diff (diff_myers r) \<noteq> normalize_diff (diff_hist r)
        \<or> length (splitlines (normalize_diff (diff_myers r)))
            \<noteq> length (splitlines (normalize_diff (diff_hist r))))
     \<and> (Discrepancy r = py ''No'' \<longleftrightarrow>
        \<not> (normalize_diff (diff_myers r) \<noteq> normalize_diff (diff_hist r)
           \<or> length (splitlines (normalize_diff (diff_myers r)))
               \<noteq> length (splitlines (normalize_diff (diff_hist r)))))"
    using yes_neq_no by (auto simp: discrepancy_def)
qed

theorem verdict_yes_iff_text_or_line_count_differs_witness:
  "example_row_b \<in> set (generate_dataset example_git (\<lambda>p. example_commits) example_repos)
   \<and> normalize_diff (diff_myers example_row_b) \<noteq> normalize_diff (diff_hist example_row_b)
   \<and> Discrepancy example_row_b = py ''Yes''"
proof -
  have mem: "example_row_b
      \<in> set (generate_dataset example_git (\<lambda>p. example_commits) example_repos)"
    by (simp add: example_dataset_generated)
  have differ: "normalize_diff (diff_myers example_row_b)
      \<noteq> normalize_diff (diff_hist example_row_b)"
    by (simp add: example_row_b_def normalize_diff_def splitlines_def strip_def
        startswith_def is_space_def is_linebreak_def py_def)
  from verdict_yes_iff_text_or_line_count_differs [rule_format, OF mem] differ
  have "Discrepancy example_row_b = py ''Yes''" by blast
  with mem differ show ?thesis by blast
qed

text \<open>
  C5: the line-count disjunct is redundant. For all strings \<open>a\<close> and \<open>b\<close> the condition
  "unequal or different line counts" holds exactly when \<open>a\<close> and \<open>b\<close> are unequal, so
  the verdict is the one that inequality alone gives.
\<close>

theorem line_count_disjunct_redundant:
  "((a \<noteq> b \<or> length (splitlines a) \<noteq> length (splitlines b)) \<longleftrightarrow> a \<noteq> b)
   \<and> discrepancy a b = (if a \<noteq> b then py ''Yes'' else py ''No'')"
  by (auto simp: discrepancy_def)

theorem line_count_disjunct_redundant_witness:
  "discrepancy (py ''-x'') (py ''-x'' @ [10]) = py ''Yes''
   \<and> length (splitlines (py ''-x'')) = length (splitlines (py ''-x'' @ [10]))"
  using line_count_disjunct_redundant [of "py ''-x''" "py ''-x'' @ [10]"]
  by (simp add: py_def splitlines_def is_linebreak_def)

text \<open>
  C6: a row whose raw Myers text and raw Histogram text are identical has the verdict
  \<open>No\<close>.
\<close>

theorem identical_raw_diffs_verdict_no:
  "\<forall>r \<in> set (generate_dataset git traverse_commits rs).
     diff_myers r = diff_hist r \<longrightarrow> Discrepancy r = py ''No''"
proof (intro ballI impI)
  fix r
  assume "r \<in> set (generate_dataset git traverse_commits rs)"
    and "diff_myers r = diff_hist r"
  then show "Discrepancy r = py ''No''"
    using dataset_row_verdict [of r git traverse_commits rs] by (simp add: discrepancy_def)
qed

theorem identical_raw_diffs_verdict_no_witness:
  "example_row_a \<in> set (generate_dataset example_git (\<lambda>p. example_commits) example_repos)
   \<and> diff_myers example_row_a = diff_hist example_row_a
   \<and> Discrepancy example_row_a = py ''No''"
proof -
  have mem: "example_row_a
      \<in> set (generate_dataset example_git (\<lambda>p. example_commits) example_repos)"
    by (simp add: example_dataset_generated)
  have same: "diff_myers example_row_a = diff_hist example_row_a"
    by (simp add: example_row_a_def)
  from identical_raw_diffs_verdict_no [rule_format, OF mem same] mem same
  show ?thesis by simp
qed

text \<open>
  C3: the dataset is the list of the expected rows of the qualifying modified files, one
  row for each, taken over the commits the pipeline processes of each repository, in
  order. A commit without parents leaves the rows written as they are, whatever files
  it modifies; so does a modified file whose old or new path is absent; a qualifying
  modified file appends exactly its row.
\<close>

theorem one_row_per_qualifying_modified_file:
  "generate_dataset git traverse_commits rs
     = concat (map (repo_rows git traverse_commits) rs)
   \<and> (parents c = [] \<longrightarrow> modified_files_loop git name repo_path c mods written = written)
   \<and> (old_path modf = None \<or> new_path modf = None \<longrightarrow>
        modified_files_loop git name repo_path c [modf] written = written)
   \<and> (qualifies c modf \<longrightarrow>
        modified_files_loop git name repo_path c [modf] written
          = written @ [row_for git name repo_path c modf])"
  by (auto simp: generate_dataset_rows modified_files_loop_rows qualifies_def)

theorem one_row_per_qualifying_modified_file_witness:
  "parents example_root_commit = []
   \<and> modified_files_loop example_git (py ''demo'') (py ''repos/demo'') example_root_commit
        (modified_files example_root_commit) [] = []
   \<and> old_path (modified_files example_commit ! 1) = None
   \<and> modified_files_loop example_git (py ''demo'') (py ''repos/demo'') example_commit
        [modified_files example_commit ! 1] [] = []
   \<and> qualifies example_commit (modified_files example_commit ! 2)
   \<and> modified_files_loop example_git (py ''demo'') (py ''repos/demo'') example_commit
        [modified_files example_commit ! 2] [] = [example_row_b]
   \<and> concat (map (repo_rows example_git (\<lambda>p. example_commits)) example_repos)
        = [example_row_a, example_row_b]"
proof -
  have root: "parents example_root_commit = []"
    by (simp add: example_root_commit_def)
  have added: "old_path (modified_files example_commit ! 1) = None"
    by (simp add: example_commit_def)
  have qual: "qualifies example_commit (modified_files example_commit ! 2)"
    by (simp add: qualifies_def example_commit_def)
  have row: "row_for example_git (py ''demo'') (py ''repos/demo'') example_commit
      (modified_files example_commit ! 2) = example_row_b"
    by (simp add: row_for_def example_commit_def example_row_b_def example_git_def
        run_git_diff_def normalize_diff_def discrepancy_def splitlines_def strip_def
        startswith_def is_space_def is_linebreak_def py_def Let_def)
  note inst = one_row_per_qualifying_modified_file
      [of example_git "\<lambda>p. example_commits" example_repos _ "py ''demo''" "py ''repos/demo''"
          _ "[]"]
  from inst [of example_root_commit "modified_files example_root_commit"] root
  have a: "modified_files_loop example_git (py ''demo'') (py ''repos/demo'')
      example_root_commit (modified_files example_root_commit) [] = []"
    by blast
  from inst [of example_commit _ "modified_files example_commit ! 1"] added
  have b: "modified_files_loop example_git (py ''demo'') (py ''repos/demo'') example_commit
      [modified_files example_commit ! 1] [] = []"
    by blast
  from inst [of example_commit _ "modified_files example_commit ! 2"] qual row
  have c: "modified_files_loop example_git (py ''demo'') (py ''repos/demo'') example_commit
      [modified_files example_commit ! 2] [] = [example_row_b]"
    by simp
  from inst [of example_commit "[]" "modified_files example_commit ! 2"]
  have d: "concat (map (repo_rows example_git (\<lambda>p. example_commits)) example_repos)
      = [example_row_a, example_row_b]"
    by (simp add: example_dataset_generated)
  from root a added b qual c d show ?thesis by blast
qed

text \<open>
  C9: the counter of processed commits ends at the smaller of the cap and the number of
  commits yielded, hence never above the cap; the rows written are those of the first
  \<open>max_commits\<close> commits alone, so later commits contribute nothing; and the rows of
  the repositories follow each other in the order the repositories are declared.
\<close>

theorem commit_cap_and_repository_order:
  "fst (traverse_loop git name repo_path max_commits 0 cs written)
     = int (min (length cs) (nat max_commits))
   \<and> fst (traverse_loop git name repo_path max_commits 0 cs written) \<le> max 0 max_commits
   \<and> snd (traverse_loop git name repo_path max_commits 0 cs written)
     = snd (traverse_loop git name repo_path max_commits 0 (take (nat max_commits) cs) written)
   \<and> generate_dataset git traverse_commits (r # rs)
     = repo_rows git traverse_commits r @ generate_dataset git traverse_commits rs
   \<and> generate_dataset git traverse_commits (rs @ rs')
     = generate_dataset git traverse_commits rs @ generate_dataset git traverse_commits rs'"
  by (simp add: traverse_loop_rows generate_dataset_rows)

theorem commit_cap_and_repository_order_witness:
  "length example_commits = 3
   \<and> fst (traverse_loop example_git (py ''demo'') (py ''repos/demo'') 2 0 example_commits [])
       = 2
   \<and> snd (traverse_loop example_git (py ''demo'') (py ''repos/demo'') 2 0 example_commits [])
       = snd (traverse_loop example_git (py ''demo'') (py ''repos/demo'') 2 0
               [example_root_commit, example_commit] [])
   \<and> generate_dataset example_git (\<lambda>p. example_commits) (example_repos @ example_repos)
       = [example_row_a, example_row_b, example_row_a, example_row_b]"
proof -
  note inst = commit_cap_and_repository_order
    [of example_git "py ''demo''" "py ''repos/demo''" 2 example_commits "[]"
        "\<lambda>p. example_commits" _ example_repos example_repos]
  have len: "length example_commits = 3"
    by (simp add: example_commits_def)
  have tk: "take (nat 2) example_commits = [example_root_commit, example_commit]"
    by (simp add: example_commits_def)
  from inst len
  have a: "fst (traverse_loop example_git (py ''demo'') (py ''repos/demo'') 2 0
      example_commits []) = 2"
    by simp
  from inst tk
  have b: "snd (traverse_loop example_git (py ''demo'') (py ''repos/demo'') 2 0
        example_commits [])
      = snd (traverse_loop example_git (py ''demo'') (py ''repos/demo'') 2 0
          [example_root_commit, example_commit] [])"
    by simp
  from inst
  have c: "generate_dataset example_git (\<lambda>p. example_commits) (example_repos @ example_repos)
      = [example_row_a, example_row_b, example_row_a, example_row_b]"
    by (simp add: example_dataset_generated)
  from len a b c show ?thesis by blast
qed

section \<open>Properties of the normalizer\<close>

lemmas string_eval =
  normalize_diff_def splitlines_def strip_def startswith_def is_space_def is_linebreak_def
  py_def

lemma concat_map_if:
  "concat (map (\<lambda>x. if P x then [f x] else []) xs) = map f (filter P xs)"
  by (induction xs) simp_all

lemma normalize_diff_kept: "normalize_diff T = join [10] (kept_lines T)"
  by (simp add: normalize_diff_def kept_lines_def is_header_def py_def Let_def concat_map_if)

lemma linebreak_LF: "is_linebreak 10" and linebreak_CR: "is_linebreak 13"
  by (simp_all add: is_linebreak_def)

lemma linebreak_is_space: "is_linebreak c \<Longrightarrow> is_space c"
  by (auto simp: is_linebreak_def is_space_def)

lemma splitlines_from_nonbreak:
  "\<not> is_linebreak c \<Longrightarrow> splitlines_from cur (c # cs) = splitlines_from (cur @ [c]) cs"
  by (cases cs) (auto simp: linebreak_CR)

lemma splitlines_from_LF: "splitlines_from cur (10 # cs) = cur # splitlines_from [] cs"
  by (cases cs) (simp_all add: linebreak_LF)

lemma splitlines_from_line:
  "no_linebreak l \<Longrightarrow> splitlines_from cur (l @ rest) = splitlines_from (cur @ l) rest"
  by (induction l arbitrary: cur) (simp_all add: no_linebreak_def splitlines_from_nonbreak)

lemma splitlines_from_join:
  "list_all no_linebreak (l # ls) \<Longrightarrow>
     splitlines_from cur (join [10] (l # ls)) = drop_final_empty ((cur @ l) # ls)"
proof (induction ls arbitrary: cur l)
  case Nil
  then show ?case
    using splitlines_from_line [of l cur "[]"] by (simp add: drop_final_empty_def)
next
  case (Cons y ys)
  have "splitlines_from cur (join [10] (l # y # ys))
      = (cur @ l) # splitlines_from [] (join [10] (y # ys))"
    using Cons.prems splitlines_from_line [of l cur "10 # join [10] (y # ys)"]
    by (simp add: splitlines_from_LF)
  also have "splitlines_from [] (join [10] (y # ys)) = drop_final_empty (y # ys)"
    using Cons.IH [of y "[]"] Cons.prems by simp
  finally show ?case by (simp add: drop_final_empty_def)
qed

lemma splitlines_join:
  assumes "list_all no_linebreak ls"
  shows "splitlines (join [10] ls) = drop_final_empty ls"
proof (cases ls)
  case Nil
  then show ?thesis by (simp add: splitlines_def drop_final_empty_def)
next
  case (Cons l ls')
  then show ?thesis
    using assms splitlines_from_join [of l ls' "[]"] by (simp add: splitlines_def)
qed

lemma splitlines_from_no_linebreak:
  "no_linebreak cur \<Longrightarrow> list_all no_linebreak (splitlines_from cur s)"
  by (induction cur s rule: splitlines_from.induct) (auto simp: no_linebreak_def)

lemma splitlines_no_linebreak: "list_all no_linebreak (splitlines s)"
  by (simp add: splitlines_def splitlines_from_no_linebreak no_linebreak_def)

lemma set_strip: "set (strip s) \<subseteq> set s"
proof
  fix c
  assume "c \<in> set (strip s)"
  then have "c \<in> set (dropWhile is_space (rev (dropWhile is_space s)))"
    by (simp add: strip_def)
  then have "c \<in> set (dropWhile is_space s)"
    using set_dropWhileD by fastforce
  then show "c \<in> set s" by (rule set_dropWhileD)
qed

lemma strip_no_linebreak: "no_linebreak l \<Longrightarrow> no_linebreak (strip l)"
  using set_strip [of l] by (auto simp: no_linebreak_def list_all_iff)

lemma strip_stripped: "stripped (strip s)"
proof (cases "dropWhile is_space s")
  case Nil
  show ?thesis unfolding strip_def stripped_def Nil by simp
next
  case (Cons y ys)
  then have y: "\<not> is_space y" using hd_dropWhile [of is_space s] by simp
  let ?t = "dropWhile is_space (rev (y # ys))"
  have t_ne: "?t \<noteq> []" using y by (simp add: dropWhile_append)
  have "last ?t = y" using y by (simp add: dropWhile_append)
  then have hd_y: "hd (rev ?t) = y" using t_ne by (simp add: hd_rev)
  have "\<not> is_space (hd ?t)" using t_ne hd_dropWhile [of is_space "rev (y # ys)"] by simp
  then have "\<not> is_space (last (rev ?t))" using t_ne by (simp add: last_rev)
  with hd_y y t_ne show ?thesis by (simp add: strip_def stripped_def Cons)
qed

lemma strip_of_stripped:
  assumes "stripped l"
  shows "strip l = l"
proof (cases l)
  case Nil
  then show ?thesis by (simp add: strip_def)
next
  case (Cons x xs)
  from assms have h: "\<not> is_space x" and la: "\<not> is_space (last l)"
    using Cons by (simp_all add: stripped_def)
  have "dropWhile is_space l = l" using h Cons by simp
  moreover have "dropWhile is_space (rev l) = rev l"
  proof -
    obtain a as where r: "rev l = a # as" using Cons by (cases "rev l") auto
    have "hd (rev l) = last l" using Cons by (simp add: hd_rev)
    then have "\<not> is_space a" using la r by simp
    then show ?thesis unfolding r by simp
  qed
  ultimately show ?thesis by (simp add: strip_def)
qed

lemma kept_lines_no_linebreak: "list_all no_linebreak (kept_lines T)"
  using splitlines_no_linebreak [of T]
  by (auto simp: kept_lines_def list_all_iff strip_no_linebreak)

lemma kept_lines_stripped: "list_all stripped (kept_lines T)"
  by (simp add: kept_lines_def list_all_iff strip_stripped)

lemma splitlines_normalize_diff:
  "splitlines (normalize_diff T) = drop_final_empty (kept_lines T)"
  by (simp add: normalize_diff_kept splitlines_join kept_lines_no_linebreak)

lemma set_drop_final_empty: "set (drop_final_empty ls) \<subseteq> set ls"
  by (auto simp: drop_final_empty_def dest: in_set_butlastD)

lemma join_snoc: "B \<noteq> [] \<Longrightarrow> join sep (B @ [x]) = join sep B @ sep @ x"
  by (induction sep B rule: join.induct) simp_all

lemma last_join:
  assumes "K \<noteq> []" and "last K \<noteq> []"
  shows "last (join sep K) = last (last K)"
proof (cases "butlast K = []")
  case True
  then have "K = [last K]" using assms(1) append_butlast_last_id [of K] by simp
  then have "join sep K = last K" using join.simps(2) [of sep "last K"] by simp
  then show ?thesis by simp
next
  case False
  then have "join sep (butlast K @ [last K]) = join sep (butlast K) @ sep @ last K"
    by (rule join_snoc)
  then have "join sep K = join sep (butlast K) @ sep @ last K"
    using assms(1) by simp
  then show ?thesis using assms(2) by simp
qed

lemma map_strip_stripped: "list_all stripped ls \<Longrightarrow> map strip ls = ls"
  by (induction ls) (simp_all add: strip_of_stripped)

text \<open>A second normalization, in terms of the lines kept by the first.\<close>

lemma normalize_diff_twice:
  "normalize_diff (normalize_diff T)
     = join [10] (filter (\<lambda>line. \<not> is_header line) (drop_final_empty (kept_lines T)))"
proof -
  let ?F = "filter (\<lambda>line. \<not> is_header line) (drop_final_empty (kept_lines T))"
  have "set ?F \<subseteq> set (kept_lines T)"
    using set_drop_final_empty [of "kept_lines T"] by auto
  then have "list_all stripped ?F"
    using kept_lines_stripped [of T] by (auto simp: list_all_iff)
  then have "map strip ?F = ?F" by (rule map_strip_stripped)
  moreover have "kept_lines (normalize_diff T) = map strip ?F"
    by (simp add: kept_lines_def [of "normalize_diff T"] splitlines_normalize_diff)
  ultimately show ?thesis by (simp add: normalize_diff_kept [of "normalize_diff T"])
qed

lemma drop_final_empty_cases:
  obtains (same) "drop_final_empty K = K" "K = [] \<or> last K \<noteq> []"
  | (cut) B where "K = B @ [[]]" "drop_final_empty K = B"
proof (cases "K \<noteq> [] \<and> last K = []")
  case True
  then have "K = butlast K @ [[]]" using append_butlast_last_id [of K] by simp
  moreover have "drop_final_empty K = butlast K" using True by (simp add: drop_final_empty_def)
  ultimately show ?thesis using cut by blast
next
  case False
  then show ?thesis using same by (auto simp: drop_final_empty_def)
qed

lemma length_drop_final_empty: "length (drop_final_empty ls) \<le> length ls"
  by (simp add: drop_final_empty_def)

lemma filter_full_length:
  assumes "length xs \<le> length (filter P xs)"
  shows "filter P xs = xs"
proof -
  have "length (filter P xs) + length (filter (\<lambda>x. \<not> P x) xs) = length xs"
    by (rule sum_length_filter_compl)
  with assms have "length (filter (\<lambda>x. \<not> P x) xs) = 0" by linarith
  then have "filter (\<lambda>x. \<not> P x) xs = []" by simp
  then have "\<forall>x \<in> set xs. P x" by (simp add: filter_empty_conv)
  then show ?thesis by simp
qed

lemma filter_of_drop_final_empty:
  assumes "drop_final_empty (filter P D) = D"
  shows "filter P D = D"
proof -
  have "length D \<le> length (filter P D)"
    using length_drop_final_empty [of "filter P D"] assms by simp
  then show ?thesis by (rule filter_full_length)
qed

lemma LF_is_space: "is_space 10"
  by (simp add: is_space_def)

lemma subseq_drop_final_empty: "subseq (drop_final_empty K) K"
  by (auto simp: drop_final_empty_def intro: prefixeq_butlast)

lemma splitlines_from_append_LF:
  "splitlines_from cur (A @ 10 # B) = splitlines_from cur (A @ [10]) @ splitlines_from [] B"
proof (induction cur A rule: splitlines_from.induct)
  case (1 cur)
  then show ?case by (simp add: splitlines_from_LF linebreak_LF)
next
  case (2 cur c)
  then show ?case by (cases B) (auto simp: splitlines_from_LF linebreak_LF)
next
  case (3 cur c d cs)
  then show ?case by (cases "cs @ 10 # B") auto
qed

lemma splitlines_append:
  assumes "T1 = [] \<or> last T1 = 10"
  shows "splitlines (T1 @ X) = splitlines T1 @ splitlines X"
proof (cases "T1 = []")
  case True
  then show ?thesis by (simp add: splitlines_def)
next
  case False
  with assms have "T1 = butlast T1 @ [10]" using append_butlast_last_id [of T1] by simp
  then obtain A where A: "T1 = A @ [10]" ..
  show ?thesis using splitlines_from_append_LF [of "[]" A X] by (simp add: A splitlines_def)
qed

lemma splitlines_header_line:
  assumes "no_linebreak l"
  shows "splitlines (l @ [10] @ T2) = l # splitlines T2"
  using splitlines_from_line [OF assms, of "[]" "10 # T2"]
  by (simp add: splitlines_def splitlines_from_LF)

lemma normalize_diff_drops_header_line:
  assumes "T1 = [] \<or> last T1 = 10" and "no_linebreak l" and "is_header l"
  shows "normalize_diff (T1 @ l @ [10] @ T2) = normalize_diff (T1 @ T2)"
proof -
  have "splitlines (T1 @ l @ [10] @ T2) = splitlines T1 @ l # splitlines T2"
    using splitlines_append [OF assms(1), of "l @ [10] @ T2"] splitlines_header_line [OF assms(2)]
    by simp
  then have "kept_lines (T1 @ l @ [10] @ T2) = kept_lines (T1 @ T2)"
    using assms(3) splitlines_append [OF assms(1), of T2] by (simp add: kept_lines_def)
  then show ?thesis by (simp add: normalize_diff_kept)
qed


text \<open>
  C1 (as amended): normalizing twice gives the result of normalizing once exactly for the
  diff texts whose normalized text has no line starting with \<open>index\<close>, \<open>---\<close> or
  \<open>+++\<close> and does not end in a newline. For every other text the second
  normalization removes more.
\<close>

theorem normalize_diff_idempotent_iff:
  "normalize_diff (normalize_diff T) = normalize_diff T \<longleftrightarrow>
     list_all (\<lambda>line. \<not> is_header line) (splitlines (normalize_diff T))
     \<and> (normalize_diff T = [] \<or> last (normalize_diff T) \<noteq> 10)"
proof -
  let ?K = "kept_lines T"
  let ?keep = "\<lambda>line. \<not> is_header line"
  let ?F = "filter ?keep (drop_final_empty ?K)"
  have twice: "normalize_diff (normalize_diff T) = join [10] ?F"
    by (rule normalize_diff_twice)
  have once: "normalize_diff T = join [10] ?K"
    by (rule normalize_diff_kept)
  have lines: "splitlines (normalize_diff T) = drop_final_empty ?K"
    by (rule splitlines_normalize_diff)
  have K_lb: "list_all no_linebreak ?K" by (rule kept_lines_no_linebreak)
  have F_lb: "list_all no_linebreak ?F"
    using K_lb set_drop_final_empty [of ?K] by (auto simp: list_all_iff)
  have split_eq: "drop_final_empty ?F = drop_final_empty ?K" if "join [10] ?F = join [10] ?K"
    using that splitlines_join [OF F_lb] splitlines_join [OF K_lb] by simp
  have main: "join [10] ?F = join [10] ?K \<longleftrightarrow>
      list_all ?keep (drop_final_empty ?K)
      \<and> (join [10] ?K = [] \<or> last (join [10] ?K) \<noteq> 10)"
  proof (cases ?K rule: drop_final_empty_cases)
    case same
    have tail: "join [10] ?K = [] \<or> last (join [10] ?K) \<noteq> 10"
    proof (cases "?K = []")
      case True
      then show ?thesis by simp
    next
      case False
      with same(2) have ne: "last ?K \<noteq> []" by simp
      have "stripped (last ?K)"
        using kept_lines_stripped [of T] False by (simp add: list_all_iff)
      with ne have "\<not> is_space (last (last ?K))" by (simp add: stripped_def)
      moreover have "last (join [10] ?K) = last (last ?K)"
        using False ne by (rule last_join)
      ultimately show ?thesis using LF_is_space by auto
    qed
    have "join [10] ?F = join [10] ?K \<longleftrightarrow> list_all ?keep ?K"
    proof
      assume "join [10] ?F = join [10] ?K"
      then have "drop_final_empty ?F = drop_final_empty ?K" by (rule split_eq)
      then have "?F = drop_final_empty ?K" by (rule filter_of_drop_final_empty)
      then have "filter ?keep ?K = ?K" using same(1) by simp
      then show "list_all ?keep ?K" by (simp add: filter_id_conv list_all_iff)
    next
      assume "list_all ?keep ?K"
      then have "filter ?keep ?K = ?K" by (simp add: filter_id_conv list_all_iff)
      then show "join [10] ?F = join [10] ?K" using same(1) by simp
    qed
    with tail show ?thesis by (simp add: same(1))
  next
    case (cut B)
    show ?thesis
    proof (cases "B = []")
      case True
      then show ?thesis using cut by simp
    next
      case False
      then have K: "join [10] ?K = join [10] B @ [10]"
        using cut(1) join_snoc [of B "[10]" "[]"] by simp
      have "join [10] ?F \<noteq> join [10] ?K"
      proof
        assume eq: "join [10] ?F = join [10] ?K"
        then have "drop_final_empty ?F = drop_final_empty ?K" by (rule split_eq)
        then have "?F = drop_final_empty ?K" by (rule filter_of_drop_final_empty)
        then have "join [10] ?F = join [10] B" using cut(2) by simp
        with eq K show False by simp
      qed
      then show ?thesis using K by simp
    qed
  qed
  show ?thesis unfolding twice lines unfolding once by (rule main)
qed

theorem normalize_diff_idempotent_iff_witness:
  "normalize_diff (normalize_diff (py ''@@ -1 +1 @@'' @ [10] @ py ''-a'' @ [10] @ py ''+b''))
     = normalize_diff (py ''@@ -1 +1 @@'' @ [10] @ py ''-a'' @ [10] @ py ''+b'')"
proof -
  have n: "normalize_diff (py ''@@ -1 +1 @@'' @ [10] @ py ''-a'' @ [10] @ py ''+b'')
      = py ''@@ -1 +1 @@'' @ [10] @ py ''-a'' @ [10] @ py ''+b''"
    by (simp add: string_eval)
  have "list_all (\<lambda>line. \<not> is_header line)
      (splitlines (py ''@@ -1 +1 @@'' @ [10] @ py ''-a'' @ [10] @ py ''+b''))"
    by (simp add: is_header_def string_eval)
  moreover have "last (py ''@@ -1 +1 @@'' @ [10] @ py ''-a'' @ [10] @ py ''+b'') \<noteq> 10"
    by (simp add: py_def)
  ultimately show ?thesis
    using normalize_diff_idempotent_iff
      [of "py ''@@ -1 +1 @@'' @ [10] @ py ''-a'' @ [10] @ py ''+b''"]
    by (simp only: n) simp
qed

text \<open>
  The claim as stated fails for a context line whose code starts with \<open>index\<close>: the
  first normalization strips the leading space, the second drops the line.
\<close>

theorem normalize_diff_not_idempotent:
  "normalize_diff (normalize_diff (py '' index = 0'')) \<noteq> normalize_diff (py '' index = 0'')"
  by (simp add: string_eval)

text \<open>
  C4 (as amended): the lines of the normalized text are the input lines that do not
  start with a marker, each stripped of leading and trailing whitespace, in input
  order, except that a final empty line is not a line of the text. Every line of the
  normalized text is stripped.
\<close>

theorem normalized_lines_are_stripped_kept_lines:
  "splitlines (normalize_diff T)
     = drop_final_empty (map strip (filter (\<lambda>line. \<not> is_header line) (splitlines T)))
   \<and> list_all stripped (splitlines (normalize_diff T))
   \<and> subseq (splitlines (normalize_diff T))
        (map strip (filter (\<lambda>line. \<not> is_header line) (splitlines T)))"
proof -
  have a: "splitlines (normalize_diff T) = drop_final_empty (kept_lines T)"
    by (rule splitlines_normalize_diff)
  have "list_all stripped (drop_final_empty (kept_lines T))"
    using kept_lines_stripped [of T] set_drop_final_empty [of "kept_lines T"]
    by (auto simp: list_all_iff)
  moreover have "subseq (drop_final_empty (kept_lines T)) (kept_lines T)"
    by (rule subseq_drop_final_empty)
  ultimately show ?thesis using a by (simp add: kept_lines_def)
qed

theorem normalized_lines_are_stripped_kept_lines_witness:
  "splitlines (normalize_diff (py ''index 1a..2b'' @ [10] @ py ''--- a/f'' @ [10]
      @ py ''+++ b/f'' @ [10] @ py ''@@ -1 +1 @@'' @ [10] @ py ''-a '' @ [10] @ py ''+b''))
     = [py ''@@ -1 +1 @@'', py ''-a'', py ''+b'']"
  using normalized_lines_are_stripped_kept_lines
    [of "py ''index 1a..2b'' @ [10] @ py ''--- a/f'' @ [10]
      @ py ''+++ b/f'' @ [10] @ py ''@@ -1 +1 @@'' @ [10] @ py ''-a '' @ [10] @ py ''+b''"]
  by (simp add: is_header_def drop_final_empty_def string_eval)

text \<open>
  The claim as stated fails where a retained line is, once stripped, equal to a
  dropped line: the input line \<open>index\<close> starts with the marker and is a line of the
  normalized text.
\<close>

theorem header_line_in_normalized_output:
  "py ''index'' \<in> set (splitlines (py ''index'' @ [10] @ py '' index''))
   \<and> startswith (py ''index'') (py ''index'')
   \<and> py ''index'' \<in> set (splitlines (normalize_diff (py ''index'' @ [10] @ py '' index'')))"
  by (simp add: string_eval)

text \<open>
  C10: the filter looks at the prefix only. A line that starts with a marker and stands
  after a newline (or at the start of the text) is dropped whatever else it holds, so
  two texts that differ in such a line alone have the same normalized text and the
  verdict \<open>No\<close>; the two diffs above, which delete different lines, are such a pair.
\<close>

theorem prefix_filter_drops_content_lines:
  "((T1 = [] \<or> last T1 = 10) \<and> no_linebreak l \<and> no_linebreak l' \<and> is_header l \<and> is_header l'
      \<longrightarrow> normalize_diff (T1 @ l @ [10] @ T2) = normalize_diff (T1 @ T2)
        \<and> normalize_diff (T1 @ l @ [10] @ T2) = normalize_diff (T1 @ l' @ [10] @ T2)
        \<and> discrepancy (normalize_diff (T1 @ l @ [10] @ T2))
            (normalize_diff (T1 @ l' @ [10] @ T2)) = py ''No'')
   \<and> example_diff_a \<noteq> example_diff_b
   \<and> normalize_diff example_diff_a = normalize_diff example_diff_b
   \<and> discrepancy (normalize_diff example_diff_a) (normalize_diff example_diff_b) = py ''No''"
proof -
  have gen: "normalize_diff (T1 @ l @ [10] @ T2) = normalize_diff (T1 @ T2)
        \<and> normalize_diff (T1 @ l @ [10] @ T2) = normalize_diff (T1 @ l' @ [10] @ T2)
        \<and> discrepancy (normalize_diff (T1 @ l @ [10] @ T2))
            (normalize_diff (T1 @ l' @ [10] @ T2)) = py ''No''"
    if "T1 = [] \<or> last T1 = 10" "no_linebreak l" "no_linebreak l'" "is_header l" "is_header l'"
    using normalize_diff_drops_header_line [OF that(1) that(2) that(4), of T2]
      normalize_diff_drops_header_line [OF that(1) that(3) that(5), of T2]
    by (simp add: discrepancy_def)
  have ne: "example_diff_a \<noteq> example_diff_b"
    by (simp add: example_diff_a_def example_diff_b_def py_def)
  have eq: "normalize_diff example_diff_a = normalize_diff example_diff_b"
    by (simp add: example_diff_a_def example_diff_b_def string_eval)
  then have "discrepancy (normalize_diff example_diff_a) (normalize_diff example_diff_b)
      = py ''No''"
    by (simp add: discrepancy_def)
  with gen ne eq show ?thesis by blast
qed

theorem prefix_filter_drops_content_lines_witness:
  "no_linebreak (py ''--- first'') \<and> is_header (py ''--- first'')
   \<and> no_linebreak (py ''--- second'') \<and> is_header (py ''--- second'')
   \<and> normalize_diff example_diff_a = normalize_diff (py ''@@ -1,2 +1 @@'' @ [10] @ py '' x'')
   \<and> normalize_diff example_diff_a = normalize_diff example_diff_b"
proof -
  have h1: "no_linebreak (py ''--- first'')" "no_linebreak (py ''--- second'')"
    by (simp_all add: no_linebreak_def is_linebreak_def py_def)
  have h2: "is_header (py ''--- first'')" "is_header (py ''--- second'')"
    by (simp_all add: is_header_def startswith_def py_def)
  have h3: "last (py ''@@ -1,2 +1 @@'' @ [10]) = 10" by simp
  have a: "example_diff_a = (py ''@@ -1,2 +1 @@'' @ [10]) @ py ''--- first'' @ [10] @ py '' x''"
    by (simp add: example_diff_a_def)
  have b: "example_diff_b = (py ''@@ -1,2 +1 @@'' @ [10]) @ py ''--- second'' @ [10] @ py '' x''"
    by (simp add: example_diff_b_def)
  from prefix_filter_drops_content_lines
    [of "py ''@@ -1,2 +1 @@'' @ [10]" "py ''--- first''" "py ''--- second''" "py '' x''"]
    h1 h2 h3
  have "normalize_diff ((py ''@@ -1,2 +1 @@'' @ [10]) @ py ''--- first'' @ [10] @ py '' x'')
        = normalize_diff ((py ''@@ -1,2 +1 @@'' @ [10]) @ py '' x'')"
    by blast
  then have c: "normalize_diff example_diff_a
      = normalize_diff (py ''@@ -1,2 +1 @@'' @ [10] @ py '' x'')"
    by (simp add: a)
  from prefix_filter_drops_content_lines [of "[]" "[]" "[]" "[]"]
  have d: "normalize_diff example_diff_a = normalize_diff example_diff_b" by blast
  from h1 h2 c d show ?thesis by blast
qed

section \<open>Properties of the aggregator and reporter\<close>

lemmas category_eval =
  is_source_code_def is_test_code_def is_readme_def is_license_def endswith_any_def
  endswith_def ignorecase_eq_def ascii_lower_def py_def

lemma counts_text_frame:
  "counts (Text_paths rows) =
     Inr [(py ''Source Code'',
           int (length (filter (\<lambda>r. Discrepancy_cell r = py ''Yes'' \<and> is_source_code r) rows))),
          (py ''Test Code'',
           int (length (filter (\<lambda>r. Discrepancy_cell r = py ''Yes'' \<and> is_test_code r) rows))),
          (py ''README'',
           int (length (filter (\<lambda>r. Discrepancy_cell r = py ''Yes'' \<and> is_readme r) rows))),
          (py ''LICENSE'',
           int (length (filter (\<lambda>r. Discrepancy_cell r = py ''Yes'' \<and> is_license r) rows)))]"
  by (simp add: counts_def categories_def)

lemma counts_other_frame: "counts (Other_paths verdicts) = Inl AttributeError"
  by (simp add: counts_def categories_def)

text \<open>
  C7: for a frame whose path column is text, each of the four counts is the number of
  discrepant rows that satisfy the predicate of its own category, whatever the other
  predicates say. Appending a discrepant row raises the count of every category whose
  predicate the row satisfies by one and leaves the others as they are; a row with the
  path \<open>test_utils.py\<close> satisfies the predicates of Source Code and of Test Code, so it
  counts in both. For a frame whose path column is not text the script raises
  \<open>AttributeError\<close> and there are no counts.
\<close>

theorem category_counts_are_independent:
  "counts (Text_paths rows) =
     Inr [(py ''Source Code'',
           int (length (filter (\<lambda>r. Discrepancy_cell r = py ''Yes'' \<and> is_source_code r) rows))),
          (py ''Test Code'',
           int (length (filter (\<lambda>r. Discrepancy_cell r = py ''Yes'' \<and> is_test_code r) rows))),
          (py ''README'',
           int (length (filter (\<lambda>r. Discrepancy_cell r = py ''Yes'' \<and> is_readme r) rows))),
          (py ''LICENSE'',
           int (length (filter (\<lambda>r. Discrepancy_cell r = py ''Yes'' \<and> is_license r) rows)))]
   \<and> (Discrepancy_cell r = py ''Yes'' \<longrightarrow>
        (\<exists>before after.
           counts (Text_paths rows) = Inr before
           \<and> counts (Text_paths (rows @ [r])) = Inr after
           \<and> map fst after = map fst before
           \<and> map snd after
               = map2 (+) (map snd before)
                   [of_bool (is_source_code r), of_bool (is_test_code r),
                    of_bool (is_readme r), of_bool (is_license r)]))
   \<and> (new_file_path_cell r = Some (py ''test_utils.py'') \<longrightarrow>
        is_source_code r \<and> is_test_code r \<and> \<not> is_readme r \<and> \<not> is_license r)
   \<and> counts (Other_paths verdicts) = Inl AttributeError"
proof -
  have b: "\<exists>before after.
           counts (Text_paths rows) = Inr before
           \<and> counts (Text_paths (rows @ [r])) = Inr after
           \<and> map fst after = map fst before
           \<and> map snd after
               = map2 (+) (map snd before)
                   [of_bool (is_source_code r), of_bool (is_test_code r),
                    of_bool (is_readme r), of_bool (is_license r)]"
    if "Discrepancy_cell r = py ''Yes''"
    using that by (simp add: counts_text_frame)
  have c: "is_source_code r \<and> is_test_code r \<and> \<not> is_readme r \<and> \<not> is_license r"
    if "new_file_path_cell r = Some (py ''test_utils.py'')"
    using that by (simp add: category_eval)
  from b c counts_text_frame [of rows] counts_other_frame [of verdicts]
  show ?thesis by blast
qed

theorem category_counts_are_independent_witness:
  "Discrepancy_cell example_frame_row_test_utils = py ''Yes''
   \<and> new_file_path_cell example_frame_row_test_utils = Some (py ''test_utils.py'')
   \<and> map snd (projr (counts (Text_paths [example_frame_row_a]))) = [0, 0, 0, 0]
   \<and> map snd (projr (counts (Text_paths ([example_frame_row_a]
        @ [example_frame_row_test_utils])))) = [1, 1, 0, 0]
   \<and> counts (Other_paths [py ''Yes'']) = Inl AttributeError"
proof -
  note inst = category_counts_are_independent
    [of "[example_frame_row_a]" example_frame_row_test_utils "[py ''Yes'']"]
  have yes: "Discrepancy_cell example_frame_row_test_utils = py ''Yes''"
    by (simp add: example_frame_row_test_utils_def)
  have path: "new_file_path_cell example_frame_row_test_utils = Some (py ''test_utils.py'')"
    by (simp add: example_frame_row_test_utils_def)
  have no: "Discrepancy_cell example_frame_row_a \<noteq> py ''Yes''"
    by (simp add: example_frame_row_a_def py_def)
  from inst no
  have zero: "map snd (projr (counts (Text_paths [example_frame_row_a]))) = [0, 0, 0, 0]"
    by simp
  from inst yes path zero
  have one: "map snd (projr (counts (Text_paths ([example_frame_row_a]
        @ [example_frame_row_test_utils])))) = [1, 1, 0, 0]"
    by auto
  from inst have err: "counts (Other_paths [py ''Yes'']) = Inl AttributeError"
    by blast
  from yes path zero one err show ?thesis by blast
qed

lemma no_plot_call_in_prints:
  "\<not> list_ex is_plot_call (map (\<lambda>(cat, count). Print (f cat count)) cs)"
  by (induction cs) (auto simp: is_plot_call_def)

lemma any_count_iff: "any_count xs \<longleftrightarrow> \<not> list_all (\<lambda>n. n = 0) xs"
  by (auto simp: any_count_def list_ex_iff list_all_iff)

text \<open>
  C8: for a frame whose path column is text the reporter runs to its end. When all
  four counts are zero it makes no call to the plotting library and its last action is
  to print the message that the plot is skipped; when some count is not zero it draws
  the bar chart of the counts and saves it under the fixed name, and does not print
  that message. A text frame without a discrepant row has all counts zero. For a frame
  whose path column is not text the script raises \<open>AttributeError\<close> before the counts
  exist: it prints nothing of this part and draws nothing.
\<close>

theorem chart_skipped_iff_all_counts_zero:
  "(\<exists>cs evs.
      counts (Text_paths rows) = Inr cs \<and> report (Text_paths rows) = Inr evs
      \<and> (list_all (\<lambda>n. n = 0) (map snd cs) \<longrightarrow>
           \<not> list_ex is_plot_call evs \<and> last evs = Print skipped_message)
      \<and> (\<not> list_all (\<lambda>n. n = 0) (map snd cs) \<longrightarrow>
           Plt_bar (map fst cs) (map snd cs) \<in> set evs
           \<and> Plt_savefig (py ''mismatch_statistics.png'') \<in> set evs
           \<and> Print skipped_message \<notin> set evs)
      \<and> (list_all (\<lambda>r. Discrepancy_cell r \<noteq> py ''Yes'') rows \<longrightarrow>
           list_all (\<lambda>n. n = 0) (map snd cs)))
   \<and> report (Other_paths verdicts) = Inl AttributeError"
proof -
  let ?cs = "projr (counts (Text_paths rows))"
  have cs: "counts (Text_paths rows) = Inr ?cs"
    by (simp add: counts_text_frame)
  have fsts: "map fst ?cs = [py ''Source Code'', py ''Test Code'', py ''README'', py ''LICENSE'']"
    by (simp add: counts_text_frame)
  have rep: "report (Text_paths rows) =
      Inr ([Print ([10] @ py ''Mismatch counts:'')]
           @ map (\<lambda>(cat, count). Print (cat @ py '': '' @ str_int count)) ?cs
           @ (if any_count (map snd ?cs) then
                [Plt_bar (map fst ?cs) (map snd ?cs),
                 Plt_xlabel (py ''File Type''),
                 Plt_ylabel (py ''Number of Mismatches''),
                 Plt_title (py ''Mismatch Statistics by File Type''),
                 Plt_tight_layout,
                 Plt_savefig (py ''mismatch_statistics.png''),
                 Plt_show,
                 Print ([10] @ py '' Plot saved as mismatch_statistics.png'')]
              else [Print skipped_message]))"
    (is "_ = Inr ?evs")
    by (simp add: report_def skipped_message_def counts_text_frame)
  have a: "\<not> list_ex is_plot_call ?evs \<and> last ?evs = Print skipped_message"
    if "list_all (\<lambda>n. n = 0) (map snd ?cs)"
    using that no_plot_call_in_prints [of "\<lambda>cat count. cat @ py '': '' @ str_int count" ?cs]
    by (simp add: any_count_iff is_plot_call_def)
  have b: "Plt_bar (map fst ?cs) (map snd ?cs) \<in> set ?evs
      \<and> Plt_savefig (py ''mismatch_statistics.png'') \<in> set ?evs
      \<and> Print skipped_message \<notin> set ?evs"
    if nz: "\<not> list_all (\<lambda>n. n = 0) (map snd ?cs)"
  proof -
    have "skipped_message \<noteq> [10] @ py ''Mismatch counts:''"
      and "skipped_message \<noteq> [10] @ py '' Plot saved as mismatch_statistics.png''"
      by (simp_all add: skipped_message_def py_def)
    moreover have "skipped_message \<noteq> cat @ py '': '' @ str_int n"
      if "(cat, n) \<in> set ?cs" for cat n
    proof -
      from that have "cat \<in> set (map fst ?cs)" by force
      then have "cat \<noteq> []" and "hd cat \<noteq> 10" by (auto simp: fsts py_def)
      then show ?thesis by (cases cat) (auto simp: skipped_message_def)
    qed
    ultimately show ?thesis
      using nz by (auto simp: any_count_iff)
  qed
  have c: "list_all (\<lambda>n. n = 0) (map snd ?cs)"
    if "list_all (\<lambda>r. Discrepancy_cell r \<noteq> py ''Yes'') rows"
  proof -
    from that have "filter (\<lambda>r. Discrepancy_cell r = py ''Yes'' \<and> P r) rows = []" for P
      by (auto simp: filter_empty_conv list_all_iff)
    then show ?thesis by (simp add: counts_text_frame)
  qed
  have d: "report (Other_paths verdicts) = Inl AttributeError"
    by (simp add: report_def counts_other_frame)
  from cs rep a b c d show ?thesis by blast
qed

theorem chart_skipped_iff_all_counts_zero_witness:
  "list_all (\<lambda>r. Discrepancy_cell r \<noteq> py ''Yes'') [example_frame_row_a]
   \<and> \<not> list_ex is_plot_call (projr (report (Text_paths [example_frame_row_a])))
   \<and> last (projr (report (Text_paths [example_frame_row_a]))) = Print skipped_message
   \<and> map snd (projr (counts (Text_paths [example_frame_row_a, example_frame_row_b])))
       = [1, 1, 0, 0]
   \<and> Plt_savefig (py ''mismatch_statistics.png'')
       \<in> set (projr (report (Text_paths [example_frame_row_a, example_frame_row_b])))
   \<and> report (Other_paths [py ''No'']) = Inl AttributeError"
proof -
  have none: "list_all (\<lambda>r. Discrepancy_cell r \<noteq> py ''Yes'') [example_frame_row_a]"
    by (simp add: example_frame_row_a_def py_def)
  have some: "map snd (projr (counts (Text_paths [example_frame_row_a, example_frame_row_b])))
      = [1, 1, 0, 0]"
    by (simp add: counts_text_frame example_frame_row_a_def example_frame_row_b_def
        category_eval)
  from chart_skipped_iff_all_counts_zero [of "[example_frame_row_a]" "[py ''No'']"] none
  have a: "\<not> list_ex is_plot_call (projr (report (Text_paths [example_frame_row_a])))
      \<and> last (projr (report (Text_paths [example_frame_row_a]))) = Print skipped_message"
    by auto
  from chart_skipped_iff_all_counts_zero
    [of "[example_frame_row_a, example_frame_row_b]" "[py ''No'']"] some
  have b: "Plt_savefig (py ''mismatch_statistics.png'')
      \<in> set (projr (report (Text_paths [example_frame_row_a, example_frame_row_b])))"
    by auto
  from chart_skipped_iff_all_counts_zero [of "[]" "[py ''No'']"]
  have c: "report (Other_paths [py ''No'']) = Inl AttributeError"
    by blast
  from none a some b c show ?thesis by blast
qed

end
